theory Spec2Isabelle
  imports Complex_Main "HOL-Library.Multiset"
begin

section \<open>Python values used by the validator\<close>

text \<open>
  The source is \<^verbatim>\<open>validgenfinal.py\<close>. Python integers are unbounded, so they are
  \<^typ>\<open>int\<close>. Exceptions are values: a computation that may raise returns
  \<open>exc + 'a\<close>, with \<open>Inl\<close> for the exception. The body of a \<^verbatim>\<open>try\<close> statement
  that has changed the state before it raises returns the exception together with the
  state reached, which is the state its handler starts from.
\<close>

datatype exc = ValueError | RequestException | OSError | ZeroDivisionError | OtherException

subsection \<open>\<^verbatim>\<open>str(i)\<close> on an integer\<close>

definition digit_char :: "int \<Rightarrow> char" where
  "digit_char d = char_of (48 + d)"

function str_digits :: "int \<Rightarrow> string" where
  "str_digits n = (if n < 10 then [digit_char n] else str_digits (n div 10) @ [digit_char (n mod 10)])"
  by pat_completeness auto
termination
  by (relation "measure nat") auto

declare str_digits.simps [simp del]

definition py_str :: "int \<Rightarrow> string" where
  "py_str i = (if i < 0 then CHR ''-'' # str_digits (- i) else str_digits i)"

subsection \<open>\<^verbatim>\<open>int(s)\<close> on text\<close>

text \<open>
  Python's \<^verbatim>\<open>int\<close> in base ten, on ASCII text: white space around the number is
  dropped, one sign may come first, and the digits may be grouped by single underscores
  that stand between two digits. Anything else raises \<^verbatim>\<open>ValueError\<close>.
\<close>

definition is_digit :: "char \<Rightarrow> bool" where
  "is_digit c = (let k = (of_char c :: int) in 48 \<le> k \<and> k \<le> 57)"

definition digit_val :: "char \<Rightarrow> int" where
  "digit_val c = of_char c - 48"

definition is_space :: "char \<Rightarrow> bool" where
  "is_space c = (let k = (of_char c :: int) in (9 \<le> k \<and> k \<le> 13) \<or> (28 \<le> k \<and> k \<le> 32))"

definition strip :: "string \<Rightarrow> string" where
  "strip s = rev (dropWhile is_space (rev (dropWhile is_space s)))"

fun parse_digits :: "int \<Rightarrow> string \<Rightarrow> exc + int" where
  "parse_digits acc [] = Inr acc"
| "parse_digits acc (c # cs) =
     (if c = CHR ''_'' then
        (case cs of
           [] \<Rightarrow> Inl ValueError
         | d # ds \<Rightarrow> if is_digit d then parse_digits acc cs else Inl ValueError)
      else if is_digit c then parse_digits (acc * 10 + digit_val c) cs
      else Inl ValueError)"

definition parse_nat :: "string \<Rightarrow> exc + int" where
  "parse_nat s =
     (case s of
        [] \<Rightarrow> Inl ValueError
      | c # cs \<Rightarrow> if is_digit c then parse_digits 0 s else Inl ValueError)"

definition py_int :: "string \<Rightarrow> exc + int" where
  "py_int s =
     (case strip s of
        [] \<Rightarrow> Inl ValueError
      | c # cs \<Rightarrow>
          if c = CHR ''-'' then
            (case parse_nat cs of Inl e \<Rightarrow> Inl e | Inr n \<Rightarrow> Inr (- n))
          else if c = CHR ''+'' then
            (case parse_nat cs of Inl e \<Rightarrow> Inl e | Inr n \<Rightarrow> Inr n)
          else
            (case parse_nat (c # cs) of Inl e \<Rightarrow> Inl e | Inr n \<Rightarrow> Inr n))"

subsection \<open>True division\<close>

text \<open>
  \<^verbatim>\<open>a / b\<close> raises \<^verbatim>\<open>ZeroDivisionError\<close> when \<^verbatim>\<open>b\<close> is zero. The quotient
  is taken exactly, as a rational; the rounding of Python's floats is not modelled.
\<close>

definition true_div :: "rat \<Rightarrow> rat \<Rightarrow> exc + rat" where
  "true_div a b = (if b = 0 then Inl ZeroDivisionError else Inr (a / b))"

section \<open>The validator and what it writes to\<close>

type_synonym headers = "(string \<times> string) list"

datatype log_level = INFO | WARNING | ERROR

datatype log_msg =
    OutputInitialized
  | ValidFound string
  | RateLimitReached
  | UnexpectedStatus int string
  | ErrorFetching string
  | ErrorProcessing string
  | FutureError
  | Starting int int
  | Completed int int rat

datatype console_msg =
    RangeHeading
  | ErrSixteenDigits
  | ErrStartLessEnd
  | ErrValidNumbers
  | RangeSet int int
  | ThreadsHeading
  | ThreadsUpdated int int
  | ConfigPanel int int int int int
  | ProgressLine int int int
  | ResultsPanel int int int int rat rat rat "rat option"
  | SavedTo

text \<open>The attributes set by \<^verbatim>\<open>AccountValidator.__init__\<close>.\<close>

record validator =
  valid_count :: int
  checked_count :: int
  error_count :: int
  rate_limit_count :: int
  start_time :: "rat option"
  fetch_workers :: int
  process_workers :: int
  range_start :: int
  range_end :: int
  is_running :: bool

text \<open>
  The validator together with the three sinks of the module: the content of the file
  \<^verbatim>\<open>valid_accounts.txt\<close>, the records handed to \<^verbatim>\<open>logger\<close>, and what
  \<^verbatim>\<open>console.print\<close> was asked to show (the kind of each message and the numbers in
  it, not its markup).
\<close>

record world = validator +
  valid_accounts :: string
  logged :: "(log_level \<times> log_msg) list"
  console :: "console_msg list"

definition init :: "world" where
  "init = \<lparr> valid_count = 0, checked_count = 0, error_count = 0, rate_limit_count = 0,
            start_time = None, fetch_workers = 10, process_workers = 5,
            range_start = 1000000000000000, range_end = 1000000000009999,
            is_running = False,
            valid_accounts = [], logged = [], console = [] \<rparr>"

definition say :: "console_msg \<Rightarrow> world \<Rightarrow> world" where
  "say m w = w\<lparr>console := console w @ [m]\<rparr>"

definition logger :: "log_level \<Rightarrow> log_msg \<Rightarrow> world \<Rightarrow> world" where
  "logger l m w = w\<lparr>logged := logged w @ [(l, m)]\<rparr>"

text \<open>
  \<^verbatim>\<open>Prompt.ask(..., default=d)\<close>: an empty answer gives the default, any other answer
  is returned as typed.
\<close>

definition prompt_ask :: "string \<Rightarrow> string \<Rightarrow> string" where
  "prompt_ask typed dflt = (if typed = [] then dflt else typed)"

section \<open>Configuration\<close>

text \<open>The \<^verbatim>\<open>try\<close> block of \<^verbatim>\<open>set_custom_range\<close>, on the two answers typed.\<close>

definition set_custom_range_try ::
  "string \<Rightarrow> string \<Rightarrow> world \<Rightarrow> (exc \<times> world) + (bool \<times> world)" where
  "set_custom_range_try typed_start typed_end w =
     (let start_text = prompt_ask typed_start (py_str (range_start w));
          end_text = prompt_ask typed_end (py_str (range_end w))
      in case py_int start_text of
           Inl e \<Rightarrow> Inl (e, w)
         | Inr start \<Rightarrow>
             (case py_int end_text of
                Inl e \<Rightarrow> Inl (e, w)
              | Inr end \<Rightarrow>
                  if length (py_str start) \<noteq> 16 \<or> length (py_str end) \<noteq> 16 then
                    Inr (False, say ErrSixteenDigits w)
                  else if start \<ge> end then
                    Inr (False, say ErrStartLessEnd w)
                  else
                    Inr (True, say (RangeSet start end)
                                 (w\<lparr>range_start := start, range_end := end\<rparr>))))"

text \<open>
  \<^verbatim>\<open>set_custom_range\<close>: the heading, the \<^verbatim>\<open>try\<close> block, and the handler of
  \<^verbatim>\<open>ValueError\<close>. Any other exception would leave the method (\<open>Inl\<close>).
\<close>

definition set_custom_range :: "string \<Rightarrow> string \<Rightarrow> world \<Rightarrow> (exc + bool) \<times> world" where
  "set_custom_range typed_start typed_end w =
     (let w0 = say RangeHeading w
      in case set_custom_range_try typed_start typed_end w0 of
           Inr (r, w') \<Rightarrow> (Inr r, w')
         | Inl (e, w') \<Rightarrow>
             if e = ValueError then (Inr False, say ErrValidNumbers w') else (Inl e, w'))"

definition configure_threads_try ::
  "string \<Rightarrow> string \<Rightarrow> world \<Rightarrow> (exc \<times> world) + (bool \<times> world)" where
  "configure_threads_try typed_fetch typed_process w =
     (let fetch_text = prompt_ask typed_fetch (py_str (fetch_workers w));
          process_text = prompt_ask typed_process (py_str (process_workers w))
      in case py_int fetch_text of
           Inl e \<Rightarrow> Inl (e, w)
         | Inr fetch \<Rightarrow>
             (case py_int process_text of
                Inl e \<Rightarrow> Inl (e, w)
              | Inr process \<Rightarrow>
                  (let w1 = w\<lparr>fetch_workers := max 1 (min fetch 50)\<rparr>;
                       w2 = w1\<lparr>process_workers := max 1 (min process 20)\<rparr>
                   in Inr (True, say (ThreadsUpdated (fetch_workers w2) (process_workers w2)) w2))))"

definition configure_threads :: "string \<Rightarrow> string \<Rightarrow> world \<Rightarrow> (exc + bool) \<times> world" where
  "configure_threads typed_fetch typed_process w =
     (let w0 = say ThreadsHeading w
      in case configure_threads_try typed_fetch typed_process w0 of
           Inr (r, w') \<Rightarrow> (Inr r, w')
         | Inl (e, w') \<Rightarrow>
             if e = ValueError then (Inr False, say ErrValidNumbers w') else (Inl e, w'))"

section \<open>The two stages\<close>

text \<open>
  What \<^verbatim>\<open>requests.get\<close> does for one account: it returns a response with a status
  code and headers, or it raises. \<^verbatim>\<open>requests.Timeout\<close> and the other transport
  failures are \<^verbatim>\<open>RequestException\<close>s.
\<close>

datatype probe = Response int headers | Failure exc

text \<open>
  \<^verbatim>\<open>fetch_response\<close>: the counter \<^verbatim>\<open>checked_count\<close> is raised after
  \<^verbatim>\<open>requests.get\<close> has returned; the handler of \<^verbatim>\<open>RequestException\<close> raises
  \<^verbatim>\<open>error_count\<close> instead. Any other exception leaves the method.
\<close>

definition fetch_response ::
  "(string \<Rightarrow> probe) \<Rightarrow> string \<Rightarrow> world \<Rightarrow> (exc + (string \<times> int option \<times> headers option)) \<times> world" where
  "fetch_response get account_number w =
     (case get account_number of
        Response status_code hdrs \<Rightarrow>
          (Inr (account_number, Some status_code, Some hdrs),
           w\<lparr>checked_count := checked_count w + 1\<rparr>)
      | Failure e \<Rightarrow>
          if e = RequestException then
            (Inr (account_number, None, None),
             logger ERROR (ErrorFetching account_number) (w\<lparr>error_count := error_count w + 1\<rparr>))
          else (Inl e, w))"

text \<open>
  \<^verbatim>\<open>open(VALID_ACCOUNTS, "a")\<close> followed by one \<^verbatim>\<open>write\<close>: either the text is
  added at the end of the file, or the operating system refuses and \<^verbatim>\<open>OSError\<close> is
  raised with the file as it was.
\<close>

definition file_append :: "bool \<Rightarrow> string \<Rightarrow> string \<Rightarrow> exc + string" where
  "file_append ok content text = (if ok then Inr (content @ text) else Inl OSError)"

abbreviation newline :: char where
  "newline \<equiv> CHR 0x0A"

definition process_response_try ::
  "bool \<Rightarrow> string \<Rightarrow> int \<Rightarrow> world \<Rightarrow> (exc \<times> world) + world" where
  "process_response_try ok account_number status_code w =
     (if status_code = 200 then
        (case file_append ok (valid_accounts w) (account_number @ [newline]) of
           Inl e \<Rightarrow> Inl (e, w)
         | Inr content \<Rightarrow>
             Inr (logger INFO (ValidFound account_number)
                    (w\<lparr>valid_accounts := content, valid_count := valid_count w + 1\<rparr>)))
      else if status_code = 429 then
        Inr (logger WARNING RateLimitReached (w\<lparr>rate_limit_count := rate_limit_count w + 1\<rparr>))
      else if status_code = 404 then Inr w
      else Inr (logger WARNING (UnexpectedStatus status_code account_number) w))"

text \<open>
  \<^verbatim>\<open>process_response\<close>: the \<^verbatim>\<open>try\<close> block and its handler, which catches every
  \<^verbatim>\<open>Exception\<close>.
\<close>

definition process_response :: "bool \<Rightarrow> string \<Rightarrow> int \<Rightarrow> world \<Rightarrow> world" where
  "process_response ok account_number status_code w =
     (case process_response_try ok account_number status_code w of
        Inr w' \<Rightarrow> w'
      | Inl (e, w') \<Rightarrow>
          logger ERROR (ErrorProcessing account_number) (w'\<lparr>error_count := error_count w' + 1\<rparr>))"

section \<open>Statistics\<close>

datatype stats_panel = NoStats | Stats int int int int rat rat

text \<open>
  \<^verbatim>\<open>create_stats_table\<close> at clock reading \<open>now\<close>. The test
  \<^verbatim>\<open>not self.start_time\<close> holds for \<^verbatim>\<open>None\<close> and for a start time of zero.
\<close>

definition create_stats_table :: "rat \<Rightarrow> world \<Rightarrow> exc + stats_panel" where
  "create_stats_table now w =
     (case start_time w of
        None \<Rightarrow> Inr NoStats
      | Some t0 \<Rightarrow>
          if t0 = 0 then Inr NoStats
          else
            (let elapsed = now - t0
             in case (if elapsed > 0 then true_div (of_int (checked_count w)) elapsed else Inr 0) of
                  Inl e \<Rightarrow> Inl e
                | Inr rate \<Rightarrow>
                    Inr (Stats (checked_count w) (valid_count w) (error_count w)
                           (rate_limit_count w) elapsed rate)))"

text \<open>The three derived figures of the final table of \<^verbatim>\<open>run_validation\<close>.\<close>

definition checked_pct :: "int \<Rightarrow> world \<Rightarrow> exc + rat" where
  "checked_pct total_accounts w =
     (if total_accounts > 0 then
        (case true_div (of_int (checked_count w)) (of_int total_accounts) of
           Inl e \<Rightarrow> Inl e | Inr q \<Rightarrow> Inr (q * 100))
      else Inr 0)"

definition valid_pct :: "world \<Rightarrow> exc + rat" where
  "valid_pct w =
     (if checked_count w > 0 then
        (case true_div (of_int (valid_count w)) (of_int (checked_count w)) of
           Inl e \<Rightarrow> Inl e | Inr q \<Rightarrow> Inr (q * 100))
      else Inr 0)"

text \<open>The last cell of the row "Time Elapsed": a rate, or a dash (\<open>None\<close>).\<close>

definition throughput :: "rat \<Rightarrow> world \<Rightarrow> exc + rat option" where
  "throughput elapsed w =
     (if elapsed > 0 then
        (case true_div (of_int (checked_count w)) elapsed of
           Inl e \<Rightarrow> Inl e | Inr q \<Rightarrow> Inr (Some q))
      else Inr None)"

section \<open>A run\<close>

text \<open>
  What a run meets outside the program: the answer of the endpoint for each account,
  whether the file can be cleared and whether a line can be added for an account, the
  answer to "Start validation?", the two readings of the clock, and the order in which
  the fetch tasks complete (\<open>pick\<close> names, among the tasks still pending, the one that
  completes next).
\<close>

record env =
  requests_get :: "string \<Rightarrow> probe"
  truncate_ok :: bool
  append_ok :: "string \<Rightarrow> bool"
  confirm :: bool
  pick :: "string list \<Rightarrow> nat"
  clock_start :: rat
  clock_end :: rat

text \<open>\<^verbatim>\<open>setup_files\<close>: opening the file for writing clears it.\<close>

definition setup_files :: "bool \<Rightarrow> world \<Rightarrow> exc + world" where
  "setup_files ok w =
     (if ok then Inr (logger INFO OutputInitialized (w\<lparr>valid_accounts := []\<rparr>)) else Inl OSError)"

text \<open>\<^verbatim>\<open>(str(i) for i in range(self.range_start, self.range_end + 1))\<close>\<close>

definition account_numbers :: "world \<Rightarrow> string list" where
  "account_numbers w = map py_str [range_start w .. range_end w]"

text \<open>
  One fetch task and the body of the loop over \<^verbatim>\<open>as_completed\<close> for its future. Each
  task runs as one step: the process task of an outcome runs when it is submitted.
\<close>

definition handle_future :: "env \<Rightarrow> string \<Rightarrow> world \<Rightarrow> world" where
  "handle_future e account w =
     (case fetch_response (requests_get e) account w of
        (Inr (account_number, status_code, hdrs), w1) \<Rightarrow>
          (let w2 = (case status_code of
                       Some sc \<Rightarrow> process_response (append_ok e account_number) account_number sc w1
                     | None \<Rightarrow> w1)
           in if checked_count w2 mod 100 = 0
              then say (ProgressLine (checked_count w2) (valid_count w2) (error_count w2)) w2
              else w2)
      | (Inl ex, w1) \<Rightarrow> logger ERROR FutureError (w1\<lparr>error_count := error_count w1 + 1\<rparr>))"

text \<open>
  The loop over \<^verbatim>\<open>as_completed(fetch_futures)\<close>. Every candidate has been submitted
  before the loop starts; the futures come back in the order of completion, which the
  program does not choose, so the environment picks the next one among those pending.
  The progress bar and an interrupt from the keyboard are not part of the model.
\<close>

function drain :: "env \<Rightarrow> string list \<Rightarrow> world \<Rightarrow> world" where
  "drain e pending w =
     (if pending = [] then w
      else (let i = pick e pending mod length pending
            in drain e (take i pending @ drop (Suc i) pending) (handle_future e (pending ! i) w)))"
  by pat_completeness auto
termination
proof (relation "measure (\<lambda>(e, pending, w). length pending)")
  show "wf (measure (\<lambda>(e, pending, w). length pending))"
    by simp
next
  fix e :: env and pending :: "string list" and w :: world and i :: nat
  assume nonempty: "pending \<noteq> []" and i: "i = pick e pending mod length pending"
  from nonempty have "i < length pending"
    by (simp add: i)
  then show "((e, take i pending @ drop (Suc i) pending, handle_future e (pending ! i) w),
              (e, pending, w)) \<in> measure (\<lambda>(e, pending, w). length pending)"
    by simp
qed

declare drain.simps [simp del]

text \<open>The \<^verbatim>\<open>finally\<close> block of \<^verbatim>\<open>run_validation\<close>.\<close>

definition report :: "int \<Rightarrow> rat \<Rightarrow> world \<Rightarrow> exc + world" where
  "report total_accounts elapsed w =
     (let w1 = logger INFO (Completed (checked_count w) (valid_count w) elapsed) (w\<lparr>is_running := False\<rparr>)
      in case checked_pct total_accounts w1 of
           Inl ex \<Rightarrow> Inl ex
         | Inr cp \<Rightarrow>
             (case valid_pct w1 of
                Inl ex \<Rightarrow> Inl ex
              | Inr vp \<Rightarrow>
                  (case throughput elapsed w1 of
                     Inl ex \<Rightarrow> Inl ex
                   | Inr tp \<Rightarrow>
                       (let w2 = say (ResultsPanel (checked_count w1) (valid_count w1) (error_count w1)
                                        (rate_limit_count w1) cp vp elapsed tp) w1
                        in Inr (if valid_count w2 > 0 then say SavedTo w2 else w2)))))"

definition run_validation :: "env \<Rightarrow> world \<Rightarrow> exc + world" where
  "run_validation e w =
     (case setup_files (truncate_ok e) w of
        Inl ex \<Rightarrow> Inl ex
      | Inr w1 \<Rightarrow>
          (let w2 = say (ConfigPanel (range_start w1) (range_end w1)
                           (range_end w1 - range_start w1 + 1)
                           (fetch_workers w1) (process_workers w1)) w1
           in if \<not> confirm e then Inr w2
              else
                (let w3 = logger INFO (Starting (range_start w2) (range_end w2))
                            (w2\<lparr>is_running := True, start_time := Some (clock_start e)\<rparr>);
                     total_accounts = range_end w3 - range_start w3 + 1;
                     w4 = drain e (account_numbers w3) w3
                 in report total_accounts (clock_end e - clock_start e) w4)))"

section \<open>Observing a run\<close>

text \<open>
  The status code the endpoint gives for an account, if the probe returns at all; and the
  accounts that answered, that were answered with 200 and written, that were answered with
  200 while the append was refused, and that were answered with 429.
\<close>

definition status_of :: "env \<Rightarrow> string \<Rightarrow> int option" where
  "status_of e account =
     (case requests_get e account of Response status_code hdrs \<Rightarrow> Some status_code | Failure ex \<Rightarrow> None)"

definition stored :: "env \<Rightarrow> string \<Rightarrow> bool" where
  "stored e account = (status_of e account = Some 200 \<and> append_ok e account)"

definition responded :: "env \<Rightarrow> string \<Rightarrow> bool" where
  "responded e account = (status_of e account \<noteq> None)"

definition refused :: "env \<Rightarrow> string \<Rightarrow> bool" where
  "refused e account = (status_of e account = Some 200 \<and> \<not> append_ok e account)"

definition rate_limited :: "env \<Rightarrow> string \<Rightarrow> bool" where
  "rate_limited e account = (status_of e account = Some 429)"

text \<open>
  The order in which \<^const>\<open>drain\<close> takes the futures: the same choices, collected in a
  list.
\<close>

function completion_order :: "env \<Rightarrow> string list \<Rightarrow> string list" where
  "completion_order e pending =
     (if pending = [] then []
      else (let i = pick e pending mod length pending
            in pending ! i # completion_order e (take i pending @ drop (Suc i) pending)))"
  by pat_completeness auto
termination
proof (relation "measure (\<lambda>(e, pending). length pending)")
  show "wf (measure (\<lambda>(e, pending). length pending))"
    by simp
next
  fix e :: env and pending :: "string list" and i :: nat
  assume nonempty: "pending \<noteq> []" and i: "i = pick e pending mod length pending"
  from nonempty have "i < length pending"
    by (simp add: i)
  then show "((e, take i pending @ drop (Suc i) pending), (e, pending))
               \<in> measure (\<lambda>(e, pending). length pending)"
    by simp
qed

declare completion_order.simps [simp del]

text \<open>The four counters and the content of the output file.\<close>

definition metrics :: "world \<Rightarrow> int \<times> int \<times> int \<times> int \<times> string" where
  "metrics w = (checked_count w, valid_count w, error_count w, rate_limit_count w, valid_accounts w)"

text \<open>
  The two end-to-end scenarios of the specification: the range of five candidates from
  1000000000000000 to 1000000000000004 on a fresh validator, with an endpoint that times
  out on every probe, and with an endpoint that answers 200 for the first candidate, 429
  for the last and 404 for the others.
\<close>

definition five_accounts :: world where
  "five_accounts = init\<lparr>range_end := 1000000000000004\<rparr>"

definition all_timeouts :: env where
  "all_timeouts = \<lparr> requests_get = (\<lambda>account. Failure RequestException), truncate_ok = True,
                     append_ok = (\<lambda>account. True), confirm = True, pick = (\<lambda>pending. 0),
                     clock_start = 100, clock_end = 101 \<rparr>"

definition mixed_answers :: env where
  "mixed_answers = \<lparr> requests_get = (\<lambda>account.
                         if account = ''1000000000000000'' then Response 200 []
                         else if account = ''1000000000000004'' then Response 429 []
                         else Response 404 []),
                      truncate_ok = True, append_ok = (\<lambda>account. True), confirm = True,
                      pick = (\<lambda>pending. 2), clock_start = 100, clock_end = 101 \<rparr>"

section \<open>Properties\<close>

subsection \<open>Text and numbers\<close>

lemma parse_digits_raises: "parse_digits acc s = Inl e \<Longrightarrow> e = ValueError"
  by (induction acc s rule: parse_digits.induct) (auto split: if_splits list.splits)

lemma parse_nat_raises: "parse_nat s = Inl e \<Longrightarrow> e = ValueError"
  using parse_digits_raises [of 0 s e]
  by (auto simp: parse_nat_def split: list.splits if_splits simp del: parse_digits.simps)

lemma py_int_raises: "e = ValueError" if "py_int s = Inl e"
proof (cases "strip s")
  case Nil
  with that show ?thesis
    by (simp add: py_int_def)
next
  case (Cons c cs)
  with that parse_nat_raises [of cs e] parse_nat_raises [of "c # cs" e] show ?thesis
    by (auto simp: py_int_def split: if_splits sum.splits)
qed

subsection \<open>Thread configuration\<close>

text \<open>
  C6. When both answers to \<^verbatim>\<open>configure_threads\<close> read as integers \<open>f\<close> and \<open>p\<close>, the
  method returns \<^verbatim>\<open>True\<close>; afterwards the fetch worker count is \<open>f\<close> brought into
  the interval from 1 to 50 (1 when \<open>f\<close> is below 1, 50 when it is above 50) and the
  process worker count is \<open>p\<close> brought into the interval from 1 to 20.
\<close>

theorem configure_threads_clamps:
  assumes "py_int (prompt_ask typed_fetch (py_str (fetch_workers w))) = Inr f"
    and "py_int (prompt_ask typed_process (py_str (process_workers w))) = Inr p"
  shows "fst (configure_threads typed_fetch typed_process w) = Inr True
       \<and> fetch_workers (snd (configure_threads typed_fetch typed_process w))
           = (if f < 1 then 1 else if f > 50 then 50 else f)
       \<and> process_workers (snd (configure_threads typed_fetch typed_process w))
           = (if p < 1 then 1 else if p > 20 then 20 else p)
       \<and> 1 \<le> fetch_workers (snd (configure_threads typed_fetch typed_process w))
       \<and> fetch_workers (snd (configure_threads typed_fetch typed_process w)) \<le> 50
       \<and> 1 \<le> process_workers (snd (configure_threads typed_fetch typed_process w))
       \<and> process_workers (snd (configure_threads typed_fetch typed_process w)) \<le> 20"
  using assms
  by (simp add: configure_threads_def configure_threads_try_def say_def Let_def)

theorem configure_threads_clamps_witness:
  "py_int (prompt_ask ''0'' (py_str (fetch_workers init))) = Inr 0
 \<and> py_int (prompt_ask ''99'' (py_str (process_workers init))) = Inr 99
 \<and> fst (configure_threads ''0'' ''99'' init) = Inr True
 \<and> fetch_workers (snd (configure_threads ''0'' ''99'' init)) = 1
 \<and> process_workers (snd (configure_threads ''0'' ''99'' init)) = 20"
proof -
  have f: "py_int (prompt_ask ''0'' (py_str (fetch_workers init))) = Inr 0"
    by code_simp
  have p: "py_int (prompt_ask ''99'' (py_str (process_workers init))) = Inr 99"
    by code_simp
  have "fst (configure_threads ''0'' ''99'' init) = Inr True
      \<and> fetch_workers (snd (configure_threads ''0'' ''99'' init)) = 1
      \<and> process_workers (snd (configure_threads ''0'' ''99'' init)) = 20"
    using configure_threads_clamps [OF f p] by simp
  with f p show ?thesis
    by blast
qed

subsection \<open>Reading back what \<^verbatim>\<open>str\<close> wrote\<close>

lemma digit_char_is_digit: "0 \<le> d \<Longrightarrow> d < 10 \<Longrightarrow> is_digit (digit_char d)"
  by (simp add: is_digit_def digit_char_def of_char_of)

lemma digit_val_digit_char: "0 \<le> d \<Longrightarrow> d < 10 \<Longrightarrow> digit_val (digit_char d) = d"
  by (simp add: digit_val_def digit_char_def of_char_of)

lemma is_digit_not_underscore: "is_digit c \<Longrightarrow> c \<noteq> CHR ''_''"
  by (auto simp: is_digit_def)

lemma is_digit_not_sign: "is_digit c \<Longrightarrow> c \<noteq> CHR ''-'' \<and> c \<noteq> CHR ''+''"
  by (auto simp: is_digit_def)

lemma is_digit_not_space: "is_digit c \<Longrightarrow> \<not> is_space c"
  by (auto simp: is_digit_def is_space_def Let_def)

lemma minus_not_space: "\<not> is_space CHR ''-''"
  by (simp add: is_space_def)

lemma parse_digits_snoc:
  "\<forall>c \<in> set ds. is_digit c \<Longrightarrow> is_digit d \<Longrightarrow> parse_digits acc ds = Inr v \<Longrightarrow>
   parse_digits acc (ds @ [d]) = Inr (v * 10 + digit_val d)"
proof (induction ds arbitrary: acc)
  case Nil
  then show ?case
    by (simp add: is_digit_not_underscore)
next
  case (Cons c cs)
  then show ?case
    by (simp add: is_digit_not_underscore)
qed

lemma str_digits_parse:
  "0 \<le> n \<Longrightarrow> (\<forall>c \<in> set (str_digits n). is_digit c) \<and> str_digits n \<noteq> [] \<and> parse_digits 0 (str_digits n) = Inr n"
proof (induction n rule: str_digits.induct)
  case (1 n)
  show ?case
  proof (cases "n < 10")
    case True
    with "1.prems" show ?thesis
      by (simp add: str_digits.simps [of n] digit_char_is_digit digit_val_digit_char
          is_digit_not_underscore)
  next
    case False
    with "1.prems" have small: "0 \<le> n div 10" "0 \<le> n mod 10" "n mod 10 < 10"
      by simp_all
    from "1.IH" [OF False small(1)]
    have ih: "\<forall>c \<in> set (str_digits (n div 10)). is_digit c"
      "parse_digits 0 (str_digits (n div 10)) = Inr (n div 10)"
      by simp_all
    have last_digit: "is_digit (digit_char (n mod 10))"
      using small by (simp add: digit_char_is_digit)
    have "parse_digits 0 (str_digits (n div 10) @ [digit_char (n mod 10)])
            = Inr (n div 10 * 10 + digit_val (digit_char (n mod 10)))"
      by (rule parse_digits_snoc [OF ih(1) last_digit ih(2)])
    with False small ih last_digit show ?thesis
      by (simp add: str_digits.simps [of n] digit_val_digit_char)
  qed
qed

lemma strip_id: "s \<noteq> [] \<Longrightarrow> \<not> is_space (hd s) \<Longrightarrow> \<not> is_space (last s) \<Longrightarrow> strip s = s"
proof -
  assume s: "s \<noteq> []" and h: "\<not> is_space (hd s)" and l: "\<not> is_space (last s)"
  from s h have "dropWhile is_space s = s"
    by (cases s) simp_all
  moreover from s l have "dropWhile is_space (rev s) = rev s"
    by (cases "rev s") (simp_all add: last_rev hd_rev)
  ultimately show ?thesis
    by (simp add: strip_def)
qed

lemma parse_nat_str_digits: "0 \<le> n \<Longrightarrow> parse_nat (str_digits n) = Inr n"
  using str_digits_parse [of n]
  by (cases "str_digits n") (simp_all add: parse_nat_def del: parse_digits.simps)

lemma py_int_py_str: "py_int (py_str n) = Inr n"
proof (cases "n < 0")
  case True
  then have pos: "0 \<le> - n"
    by simp
  from str_digits_parse [OF pos] have "is_digit (last (str_digits (- n)))"
    by simp
  then have "strip (CHR ''-'' # str_digits (- n)) = CHR ''-'' # str_digits (- n)"
    using str_digits_parse [OF pos] by (intro strip_id) (simp_all add: minus_not_space is_digit_not_space)
  with True parse_nat_str_digits [OF pos] show ?thesis
    by (simp add: py_int_def py_str_def)
next
  case False
  then have pos: "0 \<le> n"
    by simp
  from str_digits_parse [OF pos] obtain c cs where cs: "str_digits n = c # cs" and c: "is_digit c"
    and l: "is_digit (last (str_digits n))"
    by (cases "str_digits n") auto
  then have "strip (str_digits n) = str_digits n"
    by (intro strip_id) (simp_all add: is_digit_not_space)
  with False parse_nat_str_digits [OF pos] cs c is_digit_not_sign [OF c] show ?thesis
    by (simp add: py_int_def py_str_def)
qed

lemma inj_py_str: "inj py_str"
proof (rule injI)
  fix m n
  assume "py_str m = py_str n"
  then have "py_int (py_str m) = py_int (py_str n)"
    by simp
  then show "m = n"
    by (simp add: py_int_py_str)
qed

lemma str_digits_length_le:
  "0 \<le> n \<Longrightarrow> 1 \<le> k \<Longrightarrow> length (str_digits n) \<le> k \<longleftrightarrow> n < 10 ^ k"
proof (induction n arbitrary: k rule: str_digits.induct)
  case (1 n)
  show ?case
  proof (cases "n < 10")
    case True
    have "(10::int) ^ 1 \<le> 10 ^ k"
      using "1.prems"(2) by (intro power_increasing) simp_all
    with True "1.prems" show ?thesis
      by (simp add: str_digits.simps [of n])
  next
    case False
    with "1.prems" have q: "0 \<le> n div 10"
      by simp
    have len: "length (str_digits n) = Suc (length (str_digits (n div 10)))"
      using False by (simp add: str_digits.simps [of n])
    show ?thesis
    proof (cases "k = 1")
      case True
      have "str_digits (n div 10) \<noteq> []"
        using str_digits_parse [OF q] by simp
      with True False len show ?thesis
        by simp
    next
      case k: False
      with "1.prems"(2) obtain j where j: "k = Suc j" "1 \<le> j"
        by (cases k) auto
      have "n div 10 < 10 ^ j \<longleftrightarrow> n < 10 * 10 ^ j"
        by linarith
      with "1.IH" [OF False q j(2)] len j show ?thesis
        by simp
    qed
  qed
qed

lemma sixteen_digits:
  assumes "0 \<le> n"
  shows "length (py_str n) = 16 \<longleftrightarrow> 1000000000000000 \<le> n \<and> n < 10000000000000000"
proof -
  have a: "length (str_digits n) \<le> 16 \<longleftrightarrow> n < 10 ^ 16"
    by (rule str_digits_length_le [OF assms]) simp
  have b: "length (str_digits n) \<le> 15 \<longleftrightarrow> n < 10 ^ 15"
    by (rule str_digits_length_le [OF assms]) simp
  from a b assms show ?thesis
    by (simp add: py_str_def) linarith
qed

subsection \<open>The range of candidates\<close>

text \<open>
  C4. For bounds with \<open>range_start < range_end\<close>, the candidates generated for a run are
  \<open>range_end - range_start + 1\<close> in number, pairwise distinct, and ascending: read back as
  numbers they are \<open>range_start, \<dots>, range_end\<close> in this order. Generating again from
  the same bounds gives the same sequence. When both bounds are non-negative and 16
  characters long, so is every candidate.
\<close>

theorem account_numbers_ascending:
  assumes "range_start w < range_end w"
  shows "int (length (account_numbers w)) = range_end w - range_start w + 1
       \<and> distinct (account_numbers w)
       \<and> map py_int (account_numbers w) = map Inr [range_start w .. range_end w]
       \<and> sorted_wrt (\<lambda>a b. \<exists>m n. py_int a = Inr m \<and> py_int b = Inr n \<and> m < n) (account_numbers w)
       \<and> (\<forall>w'. range_start w' = range_start w \<and> range_end w' = range_end w \<longrightarrow>
             account_numbers w' = account_numbers w)
       \<and> (0 \<le> range_start w \<and> length (py_str (range_start w)) = 16
            \<and> length (py_str (range_end w)) = 16 \<longrightarrow>
             (\<forall>a \<in> set (account_numbers w). length a = 16))"
proof -
  have len: "int (length (account_numbers w)) = range_end w - range_start w + 1"
    using assms by (simp add: account_numbers_def)
  have dist: "distinct (account_numbers w)"
    by (simp add: account_numbers_def distinct_map inj_py_str [THEN inj_on_subset])
  have parsed: "map py_int (account_numbers w) = map Inr [range_start w .. range_end w]"
    by (simp add: account_numbers_def py_int_py_str)
  have "sorted_wrt (\<lambda>i j. \<exists>m n. py_int (py_str i) = Inr m \<and> py_int (py_str j) = Inr n \<and> m < n)
          [range_start w .. range_end w]"
    by (rule sorted_wrt_mono_rel [OF _ sorted_wrt_upto]) (simp add: py_int_py_str)
  then have asc: "sorted_wrt (\<lambda>a b. \<exists>m n. py_int a = Inr m \<and> py_int b = Inr n \<and> m < n)
                    (account_numbers w)"
    by (simp add: account_numbers_def sorted_wrt_map)
  have regen: "\<forall>w'. range_start w' = range_start w \<and> range_end w' = range_end w \<longrightarrow>
                 account_numbers w' = account_numbers w"
    by (simp add: account_numbers_def)
  have width: "\<forall>a \<in> set (account_numbers w). length a = 16"
    if "0 \<le> range_start w" "length (py_str (range_start w)) = 16" "length (py_str (range_end w)) = 16"
  proof
    fix a
    assume "a \<in> set (account_numbers w)"
    then obtain i where i: "a = py_str i" "range_start w \<le> i" "i \<le> range_end w"
      by (auto simp: account_numbers_def)
    from that i have nn: "0 \<le> i" "0 \<le> range_end w"
      by simp_all
    from that sixteen_digits [of "range_start w"] have lo: "1000000000000000 \<le> range_start w"
      by simp
    from that nn sixteen_digits [of "range_end w"] have hi: "range_end w < 10000000000000000"
      by simp
    from lo hi i have "1000000000000000 \<le> i \<and> i < 10000000000000000"
      by linarith
    with nn sixteen_digits [of i] i show "length a = 16"
      by simp
  qed
  then have wid: "0 \<le> range_start w \<and> length (py_str (range_start w)) = 16
            \<and> length (py_str (range_end w)) = 16 \<longrightarrow>
             (\<forall>a \<in> set (account_numbers w). length a = 16)"
    by simp
  show ?thesis
    by (rule conjI [OF len conjI [OF dist conjI [OF parsed conjI [OF asc conjI [OF regen wid]]]]])
qed

theorem account_numbers_ascending_witness:
  "range_start (init\<lparr>range_end := 1000000000000004\<rparr>) < range_end (init\<lparr>range_end := 1000000000000004\<rparr>)
 \<and> account_numbers (init\<lparr>range_end := 1000000000000004\<rparr>)
     = [''1000000000000000'', ''1000000000000001'', ''1000000000000002'',
        ''1000000000000003'', ''1000000000000004'']
 \<and> int (length (account_numbers (init\<lparr>range_end := 1000000000000004\<rparr>))) = 5
 \<and> distinct (account_numbers (init\<lparr>range_end := 1000000000000004\<rparr>))"
proof -
  have lt: "range_start (init\<lparr>range_end := 1000000000000004\<rparr>)
              < range_end (init\<lparr>range_end := 1000000000000004\<rparr>)"
    by (simp add: init_def)
  have ev: "account_numbers (init\<lparr>range_end := 1000000000000004\<rparr>)
     = [''1000000000000000'', ''1000000000000001'', ''1000000000000002'',
        ''1000000000000003'', ''1000000000000004'']"
    by code_simp
  note range = account_numbers_ascending [OF lt]
  have n: "int (length (account_numbers (init\<lparr>range_end := 1000000000000004\<rparr>))) = 5"
    using range [THEN conjunct1] by (simp add: init_def)
  have d: "distinct (account_numbers (init\<lparr>range_end := 1000000000000004\<rparr>))"
    by (rule range [THEN conjunct2, THEN conjunct1])
  show ?thesis
    by (rule conjI [OF lt conjI [OF ev conjI [OF n d]]])
qed

subsection \<open>The process stage\<close>

text \<open>
  With status 200 and an append that the operating system refuses, \<^verbatim>\<open>process_response\<close>
  adds no line and leaves \<^verbatim>\<open>valid_count\<close> as it was; the handler counts an error.
\<close>

theorem process_response_refused_append:
  "valid_accounts (process_response False ''1000000000000000'' 200 init) = valid_accounts init
 \<and> valid_count (process_response False ''1000000000000000'' 200 init) = valid_count init
 \<and> error_count (process_response False ''1000000000000000'' 200 init) = error_count init + 1"
  by (simp add: process_response_def process_response_try_def file_append_def logger_def)

text \<open>
  C2, as amended. Status 200 with an append that succeeds adds exactly the line of the
  candidate to the file and raises \<^verbatim>\<open>valid_count\<close> by one, and no other counter;
  status 200 with an append that raises leaves the file, \<^verbatim>\<open>valid_count\<close> and
  \<^verbatim>\<open>rate_limit_count\<close> as they were and raises \<^verbatim>\<open>error_count\<close> by one. Status
  404 changes nothing at all. Status 429 raises \<^verbatim>\<open>rate_limit_count\<close> by one and no
  other counter, and leaves the file. Any other status changes no counter and leaves the
  file.
\<close>

theorem process_response_by_status:
  "(status_code = 200 \<and> ok \<longrightarrow>
      valid_accounts (process_response ok account status_code w) = valid_accounts w @ account @ [newline]
    \<and> valid_count (process_response ok account status_code w) = valid_count w + 1
    \<and> rate_limit_count (process_response ok account status_code w) = rate_limit_count w
    \<and> error_count (process_response ok account status_code w) = error_count w
    \<and> checked_count (process_response ok account status_code w) = checked_count w)
 \<and> (status_code = 200 \<and> \<not> ok \<longrightarrow>
      valid_accounts (process_response ok account status_code w) = valid_accounts w
    \<and> valid_count (process_response ok account status_code w) = valid_count w
    \<and> rate_limit_count (process_response ok account status_code w) = rate_limit_count w
    \<and> error_count (process_response ok account status_code w) = error_count w + 1
    \<and> checked_count (process_response ok account status_code w) = checked_count w)
 \<and> (status_code = 404 \<longrightarrow> process_response ok account status_code w = w)
 \<and> (status_code = 429 \<longrightarrow>
      valid_accounts (process_response ok account status_code w) = valid_accounts w
    \<and> valid_count (process_response ok account status_code w) = valid_count w
    \<and> rate_limit_count (process_response ok account status_code w) = rate_limit_count w + 1
    \<and> error_count (process_response ok account status_code w) = error_count w
    \<and> checked_count (process_response ok account status_code w) = checked_count w)
 \<and> (status_code \<noteq> 200 \<and> status_code \<noteq> 404 \<and> status_code \<noteq> 429 \<longrightarrow>
      valid_accounts (process_response ok account status_code w) = valid_accounts w
    \<and> valid_count (process_response ok account status_code w) = valid_count w
    \<and> rate_limit_count (process_response ok account status_code w) = rate_limit_count w
    \<and> error_count (process_response ok account status_code w) = error_count w
    \<and> checked_count (process_response ok account status_code w) = checked_count w)"
  by (simp add: process_response_def process_response_try_def file_append_def logger_def)

theorem process_response_by_status_witness:
  "valid_accounts (process_response True ''1000000000000000'' 200 init) = ''1000000000000000'' @ [newline]
 \<and> valid_count (process_response True ''1000000000000000'' 200 init) = 1
 \<and> error_count (process_response False ''1000000000000000'' 200 init) = 1
 \<and> valid_accounts (process_response False ''1000000000000000'' 200 init) = []
 \<and> process_response True ''1000000000000001'' 404 init = init
 \<and> rate_limit_count (process_response True ''1000000000000004'' 429 init) = 1
 \<and> valid_accounts (process_response True ''1000000000000002'' 500 init) = []
 \<and> valid_count (process_response True ''1000000000000002'' 500 init) = 0
 \<and> rate_limit_count (process_response True ''1000000000000002'' 500 init) = 0"
  using process_response_by_status [of 200 True "''1000000000000000''" init]
    process_response_by_status [of 200 False "''1000000000000000''" init]
    process_response_by_status [of 404 True "''1000000000000001''" init]
    process_response_by_status [of 429 True "''1000000000000004''" init]
    process_response_by_status [of 500 True "''1000000000000002''" init]
  by (simp add: init_def)

text \<open>The \<^verbatim>\<open>try\<close> block raises exactly for status 200 with a refused append.\<close>

lemma process_response_try_raises:
  "(\<exists>ex w1. process_response_try ok account status_code w = Inl (ex, w1)) \<longleftrightarrow> status_code = 200 \<and> \<not> ok"
  by (auto simp: process_response_try_def file_append_def)

text \<open>
  C7. If the \<^verbatim>\<open>try\<close> block of \<^verbatim>\<open>process_response\<close> raises, nothing had been changed
  before the exception; the handler raises \<^verbatim>\<open>error_count\<close> by one and logs one error
  record, and \<^verbatim>\<open>process_response\<close> returns normally. The other three counters and
  the file are as before.
\<close>

theorem process_response_error_path:
  assumes "process_response_try ok account status_code w = Inl (ex, w1)"
  shows "w1 = w
       \<and> process_response ok account status_code w
           = logger ERROR (ErrorProcessing account) (w\<lparr>error_count := error_count w + 1\<rparr>)
       \<and> error_count (process_response ok account status_code w) = error_count w + 1
       \<and> valid_count (process_response ok account status_code w) = valid_count w
       \<and> checked_count (process_response ok account status_code w) = checked_count w
       \<and> rate_limit_count (process_response ok account status_code w) = rate_limit_count w
       \<and> valid_accounts (process_response ok account status_code w) = valid_accounts w
       \<and> logged (process_response ok account status_code w)
           = logged w @ [(ERROR, ErrorProcessing account)]"
  using assms
  by (auto simp: process_response_def process_response_try_def file_append_def logger_def
           split: if_splits)

theorem process_response_error_path_witness:
  "process_response_try False ''1000000000000000'' 200 init = Inl (OSError, init)
 \<and> error_count (process_response False ''1000000000000000'' 200 init) = 1
 \<and> valid_count (process_response False ''1000000000000000'' 200 init) = 0
 \<and> valid_accounts (process_response False ''1000000000000000'' 200 init) = []
 \<and> logged (process_response False ''1000000000000000'' 200 init)
      = [(ERROR, ErrorProcessing ''1000000000000000'')]"
proof -
  have raised: "process_response_try False ''1000000000000000'' 200 init = Inl (OSError, init)"
    by (simp add: process_response_try_def file_append_def)
  from process_response_error_path [OF raised] raised show ?thesis
    by (simp add: init_def logger_def)
qed

subsection \<open>Derived statistics\<close>

text \<open>
  C10. No derived figure divides by zero: \<^verbatim>\<open>create_stats_table\<close>, the two
  percentages, the throughput cell and the whole final report always return a value. The
  live rate is 0 when the elapsed time is not positive, the checked percentage is 0 when
  the number of accounts is not positive, the valid percentage is 0 when nothing was
  checked, and the throughput cell of the final table is a dash when the elapsed time is
  not positive.
\<close>

theorem statistics_division_guarded:
  "(\<exists>panel. create_stats_table now w = Inr panel)
 \<and> (\<forall>t0. start_time w = Some t0 \<and> t0 \<noteq> 0 \<and> now - t0 \<le> 0 \<longrightarrow>
        create_stats_table now w
          = Inr (Stats (checked_count w) (valid_count w) (error_count w) (rate_limit_count w) (now - t0) 0))
 \<and> (\<exists>r. checked_pct total_accounts w = Inr r)
 \<and> (total_accounts \<le> 0 \<longrightarrow> checked_pct total_accounts w = Inr 0)
 \<and> (\<exists>r. valid_pct w = Inr r)
 \<and> (checked_count w = 0 \<longrightarrow> valid_pct w = Inr 0)
 \<and> (\<exists>r. throughput elapsed w = Inr r)
 \<and> (elapsed \<le> 0 \<longrightarrow> throughput elapsed w = Inr None)
 \<and> (\<exists>w'. report total_accounts elapsed w = Inr w')"
  by (auto simp: create_stats_table_def checked_pct_def valid_pct_def throughput_def report_def
      true_div_def Let_def logger_def say_def split: option.splits)

theorem statistics_division_guarded_witness:
  "create_stats_table 100 (init\<lparr>start_time := Some 100\<rparr>) = Inr (Stats 0 0 0 0 0 0)
 \<and> checked_pct 0 (init\<lparr>start_time := Some 100\<rparr>) = Inr 0
 \<and> valid_pct (init\<lparr>start_time := Some 100\<rparr>) = Inr 0
 \<and> throughput 0 (init\<lparr>start_time := Some 100\<rparr>) = Inr None"
  using statistics_division_guarded [of 100 "init\<lparr>start_time := Some 100\<rparr>" 0 0]
  by (simp add: init_def)

subsection \<open>Range configuration\<close>

text \<open>What the two configuration methods return, by the way the answers read.\<close>

lemma set_custom_range_unparsed:
  assumes "py_int (prompt_ask typed_start (py_str (range_start w))) = Inl e
         \<or> py_int (prompt_ask typed_end (py_str (range_end w))) = Inl e"
  shows "set_custom_range typed_start typed_end w
           = (Inr False, say ErrValidNumbers (say RangeHeading w))"
proof -
  have "set_custom_range_try typed_start typed_end (say RangeHeading w)
          = Inl (ValueError, say RangeHeading w)"
    using assms py_int_raises [of "prompt_ask typed_start (py_str (range_start w))"]
      py_int_raises [of "prompt_ask typed_end (py_str (range_end w))"]
    by (auto simp: set_custom_range_try_def say_def Let_def split: sum.splits)
  then show ?thesis
    by (simp add: set_custom_range_def Let_def)
qed

lemma set_custom_range_parsed:
  assumes "py_int (prompt_ask typed_start (py_str (range_start w))) = Inr lo"
    and "py_int (prompt_ask typed_end (py_str (range_end w))) = Inr hi"
  shows "set_custom_range typed_start typed_end w
           = (if length (py_str lo) \<noteq> 16 \<or> length (py_str hi) \<noteq> 16
              then (Inr False, say ErrSixteenDigits (say RangeHeading w))
              else if lo \<ge> hi then (Inr False, say ErrStartLessEnd (say RangeHeading w))
              else (Inr True, say (RangeSet lo hi)
                      ((say RangeHeading w)\<lparr>range_start := lo, range_end := hi\<rparr>)))"
  using assms
  by (simp add: set_custom_range_def set_custom_range_try_def say_def Let_def)

lemma configure_threads_unparsed:
  assumes "py_int (prompt_ask typed_fetch (py_str (fetch_workers w))) = Inl e
         \<or> py_int (prompt_ask typed_process (py_str (process_workers w))) = Inl e"
  shows "configure_threads typed_fetch typed_process w
           = (Inr False, say ErrValidNumbers (say ThreadsHeading w))"
proof -
  have "configure_threads_try typed_fetch typed_process (say ThreadsHeading w)
          = Inl (ValueError, say ThreadsHeading w)"
    using assms py_int_raises [of "prompt_ask typed_fetch (py_str (fetch_workers w))"]
      py_int_raises [of "prompt_ask typed_process (py_str (process_workers w))"]
    by (auto simp: configure_threads_try_def say_def Let_def split: sum.splits)
  then show ?thesis
    by (simp add: configure_threads_def Let_def)
qed

lemma configure_threads_parsed:
  assumes "py_int (prompt_ask typed_fetch (py_str (fetch_workers w))) = Inr f"
    and "py_int (prompt_ask typed_process (py_str (process_workers w))) = Inr p"
  shows "configure_threads typed_fetch typed_process w
           = (Inr True, say (ThreadsUpdated (max 1 (min f 50)) (max 1 (min p 20)))
                ((say ThreadsHeading w)\<lparr>fetch_workers := max 1 (min f 50),
                                           process_workers := max 1 (min p 20)\<rparr>))"
  using assms
  by (simp add: configure_threads_def configure_threads_try_def say_def Let_def)

text \<open>
  With equal bounds \<^verbatim>\<open>set_custom_range\<close> raises nothing: it returns \<^verbatim>\<open>False\<close>.
\<close>

theorem set_custom_range_equal_bounds:
  "fst (set_custom_range ''1000000000000005'' ''1000000000000005'' init) = Inr False"
  by code_simp

text \<open>
  A bound with a minus sign and 15 digits is 16 characters long and passes the test
  \<^verbatim>\<open>len(str(start)) != 16\<close>.
\<close>

lemma set_custom_range_negative_bound:
  "fst (set_custom_range ''-100000000000000'' ''1000000000000004'' init) = Inr True"
  by code_simp

text \<open>
  C3, as amended. \<^verbatim>\<open>set_custom_range\<close> never raises. When both answers read as
  non-negative integers and the bounds are equal, or the start is above the end, or a
  bound does not have exactly 16 decimal digits, it returns \<^verbatim>\<open>False\<close> after printing
  one of its two error messages; nothing else changes: the configured range is as it
  was, and no run is started.
\<close>

theorem set_custom_range_rejects:
  "(\<exists>b. fst (set_custom_range typed_start typed_end w) = Inr b)
 \<and> (py_int (prompt_ask typed_start (py_str (range_start w))) = Inr lo
    \<and> py_int (prompt_ask typed_end (py_str (range_end w))) = Inr hi
    \<and> 0 \<le> lo \<and> 0 \<le> hi
    \<and> (lo = hi \<or> lo > hi
       \<or> \<not> (1000000000000000 \<le> lo \<and> lo < 10000000000000000)
       \<or> \<not> (1000000000000000 \<le> hi \<and> hi < 10000000000000000))
    \<longrightarrow> fst (set_custom_range typed_start typed_end w) = Inr False
      \<and> (snd (set_custom_range typed_start typed_end w)
            = w\<lparr>console := console w @ [RangeHeading, ErrSixteenDigits]\<rparr>
         \<or> snd (set_custom_range typed_start typed_end w)
            = w\<lparr>console := console w @ [RangeHeading, ErrStartLessEnd]\<rparr>)
      \<and> is_running (snd (set_custom_range typed_start typed_end w)) = is_running w
      \<and> range_start (snd (set_custom_range typed_start typed_end w)) = range_start w
      \<and> range_end (snd (set_custom_range typed_start typed_end w)) = range_end w)"
proof (intro conjI impI)
  show "\<exists>b. fst (set_custom_range typed_start typed_end w) = Inr b"
  proof (cases "py_int (prompt_ask typed_start (py_str (range_start w)))")
    case (Inl e)
    then show ?thesis
      using set_custom_range_unparsed [where typed_start = typed_start and typed_end = typed_end
          and w = w and e = e]
      by auto
  next
    case start: (Inr a)
    show ?thesis
    proof (cases "py_int (prompt_ask typed_end (py_str (range_end w)))")
      case (Inl e)
      then show ?thesis
        using set_custom_range_unparsed [where typed_start = typed_start and typed_end = typed_end
            and w = w and e = e]
        by auto
    next
      case (Inr b)
      with start show ?thesis
        by (auto simp: set_custom_range_parsed)
    qed
  qed
next
  assume a: "py_int (prompt_ask typed_start (py_str (range_start w))) = Inr lo
    \<and> py_int (prompt_ask typed_end (py_str (range_end w))) = Inr hi
    \<and> 0 \<le> lo \<and> 0 \<le> hi
    \<and> (lo = hi \<or> lo > hi
       \<or> \<not> (1000000000000000 \<le> lo \<and> lo < 10000000000000000)
       \<or> \<not> (1000000000000000 \<le> hi \<and> hi < 10000000000000000))"
  then have bad: "length (py_str lo) \<noteq> 16 \<or> length (py_str hi) \<noteq> 16 \<or> lo \<ge> hi"
    using sixteen_digits [of lo] sixteen_digits [of hi] by auto
  from a have eq: "set_custom_range typed_start typed_end w
           = (if length (py_str lo) \<noteq> 16 \<or> length (py_str hi) \<noteq> 16
              then (Inr False, say ErrSixteenDigits (say RangeHeading w))
              else if lo \<ge> hi then (Inr False, say ErrStartLessEnd (say RangeHeading w))
              else (Inr True, say (RangeSet lo hi)
                      ((say RangeHeading w)\<lparr>range_start := lo, range_end := hi\<rparr>)))"
    by (intro set_custom_range_parsed) simp_all
  from bad show "fst (set_custom_range typed_start typed_end w) = Inr False"
    by (auto simp: eq)
  from bad show "snd (set_custom_range typed_start typed_end w)
            = w\<lparr>console := console w @ [RangeHeading, ErrSixteenDigits]\<rparr>
         \<or> snd (set_custom_range typed_start typed_end w)
            = w\<lparr>console := console w @ [RangeHeading, ErrStartLessEnd]\<rparr>"
    by (auto simp: eq say_def)
  from bad show "is_running (snd (set_custom_range typed_start typed_end w)) = is_running w"
    by (auto simp: eq say_def)
  from bad show "range_start (snd (set_custom_range typed_start typed_end w)) = range_start w"
    by (auto simp: eq say_def)
  from bad show "range_end (snd (set_custom_range typed_start typed_end w)) = range_end w"
    by (auto simp: eq say_def)
qed

theorem set_custom_range_rejects_witness:
  "py_int (prompt_ask ''1000000000000009'' (py_str (range_start init))) = Inr 1000000000000009
 \<and> py_int (prompt_ask ''1000000000000001'' (py_str (range_end init))) = Inr 1000000000000001
 \<and> fst (set_custom_range ''1000000000000009'' ''1000000000000001'' init) = Inr False
 \<and> is_running (snd (set_custom_range ''1000000000000009'' ''1000000000000001'' init)) = False
 \<and> range_start (snd (set_custom_range ''1000000000000009'' ''1000000000000001'' init)) = 1000000000000000
 \<and> range_end (snd (set_custom_range ''1000000000000009'' ''1000000000000001'' init)) = 1000000000009999"
proof -
  have lo: "py_int (prompt_ask ''1000000000000009'' (py_str (range_start init))) = Inr 1000000000000009"
    by code_simp
  have hi: "py_int (prompt_ask ''1000000000000001'' (py_str (range_end init))) = Inr 1000000000000001"
    by code_simp
  have hyp: "py_int (prompt_ask ''1000000000000009'' (py_str (range_start init))) = Inr 1000000000000009
    \<and> py_int (prompt_ask ''1000000000000001'' (py_str (range_end init))) = Inr 1000000000000001
    \<and> (0::int) \<le> 1000000000000009 \<and> (0::int) \<le> 1000000000000001
    \<and> ((1000000000000009::int) = 1000000000000001 \<or> (1000000000000009::int) > 1000000000000001
       \<or> \<not> ((1000000000000000::int) \<le> 1000000000000009 \<and> (1000000000000009::int) < 10000000000000000)
       \<or> \<not> ((1000000000000000::int) \<le> 1000000000000001 \<and> (1000000000000001::int) < 10000000000000000))"
    using lo hi by simp
  note r = set_custom_range_rejects [of "''1000000000000009''" "''1000000000000001''" init
      1000000000000009 1000000000000001, THEN conjunct2, THEN mp, OF hyp]
  have a: "fst (set_custom_range ''1000000000000009'' ''1000000000000001'' init) = Inr False"
    by (rule r [THEN conjunct1])
  have b: "is_running (snd (set_custom_range ''1000000000000009'' ''1000000000000001'' init)) = False"
    using r [THEN conjunct2, THEN conjunct2, THEN conjunct1] by (simp add: init_def)
  have c: "range_start (snd (set_custom_range ''1000000000000009'' ''1000000000000001'' init)) = 1000000000000000"
    using r [THEN conjunct2, THEN conjunct2, THEN conjunct2, THEN conjunct1] by (simp add: init_def)
  have d: "range_end (snd (set_custom_range ''1000000000000009'' ''1000000000000001'' init)) = 1000000000009999"
    using r [THEN conjunct2, THEN conjunct2, THEN conjunct2, THEN conjunct2] by (simp add: init_def)
  show ?thesis
    by (rule conjI [OF lo conjI [OF hi conjI [OF a conjI [OF b conjI [OF c d]]]]])
qed

subsection \<open>Configuration is all or nothing\<close>

lemma set_custom_range_atomic:
  "(fst (set_custom_range typed_start typed_end w) = Inr False \<longrightarrow>
      range_start (snd (set_custom_range typed_start typed_end w)) = range_start w
    \<and> range_end (snd (set_custom_range typed_start typed_end w)) = range_end w
    \<and> fetch_workers (snd (set_custom_range typed_start typed_end w)) = fetch_workers w
    \<and> process_workers (snd (set_custom_range typed_start typed_end w)) = process_workers w)
 \<and> ((\<exists>e. py_int (prompt_ask typed_start (py_str (range_start w))) = Inl e)
    \<or> (\<exists>e. py_int (prompt_ask typed_end (py_str (range_end w))) = Inl e)
    \<or> (\<exists>lo hi. py_int (prompt_ask typed_start (py_str (range_start w))) = Inr lo
              \<and> py_int (prompt_ask typed_end (py_str (range_end w))) = Inr hi
              \<and> (length (py_str lo) \<noteq> 16 \<or> length (py_str hi) \<noteq> 16 \<or> lo \<ge> hi))
    \<longrightarrow> fst (set_custom_range typed_start typed_end w) = Inr False)
 \<and> (fst (set_custom_range typed_start typed_end w) = Inr True \<longrightarrow>
      (\<exists>lo hi. py_int (prompt_ask typed_start (py_str (range_start w))) = Inr lo
              \<and> py_int (prompt_ask typed_end (py_str (range_end w))) = Inr hi
              \<and> lo < hi
              \<and> range_start (snd (set_custom_range typed_start typed_end w)) = lo
              \<and> range_end (snd (set_custom_range typed_start typed_end w)) = hi)
    \<and> fetch_workers (snd (set_custom_range typed_start typed_end w)) = fetch_workers w
    \<and> process_workers (snd (set_custom_range typed_start typed_end w)) = process_workers w)
"
proof (cases "py_int (prompt_ask typed_start (py_str (range_start w)))")
  case (Inl x)
  then have eq: "set_custom_range typed_start typed_end w
                   = (Inr False, say ErrValidNumbers (say RangeHeading w))"
    by (intro set_custom_range_unparsed [where e = x]) simp
  show ?thesis
    by (simp add: eq say_def)
next
  case lo: (Inr lo)
  show ?thesis
  proof (cases "py_int (prompt_ask typed_end (py_str (range_end w)))")
    case (Inl x)
    then have eq: "set_custom_range typed_start typed_end w
                     = (Inr False, say ErrValidNumbers (say RangeHeading w))"
      by (intro set_custom_range_unparsed [where e = x]) simp
    show ?thesis
      by (simp add: eq say_def)
  next
    case hi: (Inr hi)
    note eq = set_custom_range_parsed [OF lo hi]
    show ?thesis
      by (simp add: eq say_def lo hi)
  qed
qed

lemma configure_threads_atomic:
  "((\<exists>e. py_int (prompt_ask typed_fetch (py_str (fetch_workers w))) = Inl e)
    \<or> (\<exists>e. py_int (prompt_ask typed_process (py_str (process_workers w))) = Inl e)
    \<longrightarrow> fst (configure_threads typed_fetch typed_process w) = Inr False
      \<and> range_start (snd (configure_threads typed_fetch typed_process w)) = range_start w
      \<and> range_end (snd (configure_threads typed_fetch typed_process w)) = range_end w
      \<and> fetch_workers (snd (configure_threads typed_fetch typed_process w)) = fetch_workers w
      \<and> process_workers (snd (configure_threads typed_fetch typed_process w)) = process_workers w)
 \<and> (fst (configure_threads typed_fetch typed_process w) = Inr True \<longrightarrow>
      (\<exists>f p. py_int (prompt_ask typed_fetch (py_str (fetch_workers w))) = Inr f
            \<and> py_int (prompt_ask typed_process (py_str (process_workers w))) = Inr p
            \<and> fetch_workers (snd (configure_threads typed_fetch typed_process w)) = max 1 (min f 50)
            \<and> process_workers (snd (configure_threads typed_fetch typed_process w)) = max 1 (min p 20))
    \<and> range_start (snd (configure_threads typed_fetch typed_process w)) = range_start w
    \<and> range_end (snd (configure_threads typed_fetch typed_process w)) = range_end w)"
proof (cases "py_int (prompt_ask typed_fetch (py_str (fetch_workers w)))")
  case (Inl x)
  then have eq: "configure_threads typed_fetch typed_process w
                   = (Inr False, say ErrValidNumbers (say ThreadsHeading w))"
    by (intro configure_threads_unparsed [where e = x]) simp
  show ?thesis
    by (simp add: eq say_def)
next
  case f: (Inr f)
  show ?thesis
  proof (cases "py_int (prompt_ask typed_process (py_str (process_workers w)))")
    case (Inl x)
    then have eq: "configure_threads typed_fetch typed_process w
                     = (Inr False, say ErrValidNumbers (say ThreadsHeading w))"
      by (intro configure_threads_unparsed [where e = x]) simp
    show ?thesis
      by (simp add: eq say_def)
  next
    case p: (Inr p)
    note eq = configure_threads_parsed [OF f p]
    show ?thesis
      by (simp add: eq say_def f p)
  qed
qed

text \<open>
  What holds of both methods whatever the answers are. Whenever \<^verbatim>\<open>set_custom_range\<close>
  returns \<^verbatim>\<open>False\<close>, the range and both worker counts are as before; it returns
  \<^verbatim>\<open>False\<close> for an answer that does not read as an integer, for a bound whose text
  is not 16 characters long, and for a start that is not below the end. When it returns
  \<^verbatim>\<open>True\<close>, both bounds are the ones entered, with the start below the end, and the
  worker counts are as before. \<^verbatim>\<open>configure_threads\<close> returns \<^verbatim>\<open>False\<close> and
  changes none of the four settings when an answer does not read as an integer; when it
  returns \<^verbatim>\<open>True\<close>, both worker counts are the clamped answers and the range is as
  before.
\<close>

lemma configuration_atomic:
  "(fst (set_custom_range typed_start typed_end w) = Inr False \<longrightarrow>
      range_start (snd (set_custom_range typed_start typed_end w)) = range_start w
    \<and> range_end (snd (set_custom_range typed_start typed_end w)) = range_end w
    \<and> fetch_workers (snd (set_custom_range typed_start typed_end w)) = fetch_workers w
    \<and> process_workers (snd (set_custom_range typed_start typed_end w)) = process_workers w)
 \<and> ((\<exists>e. py_int (prompt_ask typed_start (py_str (range_start w))) = Inl e)
    \<or> (\<exists>e. py_int (prompt_ask typed_end (py_str (range_end w))) = Inl e)
    \<or> (\<exists>lo hi. py_int (prompt_ask typed_start (py_str (range_start w))) = Inr lo
              \<and> py_int (prompt_ask typed_end (py_str (range_end w))) = Inr hi
              \<and> (length (py_str lo) \<noteq> 16 \<or> length (py_str hi) \<noteq> 16 \<or> lo \<ge> hi))
    \<longrightarrow> fst (set_custom_range typed_start typed_end w) = Inr False)
 \<and> (fst (set_custom_range typed_start typed_end w) = Inr True \<longrightarrow>
      (\<exists>lo hi. py_int (prompt_ask typed_start (py_str (range_start w))) = Inr lo
              \<and> py_int (prompt_ask typed_end (py_str (range_end w))) = Inr hi
              \<and> lo < hi
              \<and> range_start (snd (set_custom_range typed_start typed_end w)) = lo
              \<and> range_end (snd (set_custom_range typed_start typed_end w)) = hi)
    \<and> fetch_workers (snd (set_custom_range typed_start typed_end w)) = fetch_workers w
    \<and> process_workers (snd (set_custom_range typed_start typed_end w)) = process_workers w)
 \<and> ((\<exists>e. py_int (prompt_ask typed_fetch (py_str (fetch_workers w))) = Inl e)
    \<or> (\<exists>e. py_int (prompt_ask typed_process (py_str (process_workers w))) = Inl e)
    \<longrightarrow> fst (configure_threads typed_fetch typed_process w) = Inr False
      \<and> range_start (snd (configure_threads typed_fetch typed_process w)) = range_start w
      \<and> range_end (snd (configure_threads typed_fetch typed_process w)) = range_end w
      \<and> fetch_workers (snd (configure_threads typed_fetch typed_process w)) = fetch_workers w
      \<and> process_workers (snd (configure_threads typed_fetch typed_process w)) = process_workers w)
 \<and> (fst (configure_threads typed_fetch typed_process w) = Inr True \<longrightarrow>
      (\<exists>f p. py_int (prompt_ask typed_fetch (py_str (fetch_workers w))) = Inr f
            \<and> py_int (prompt_ask typed_process (py_str (process_workers w))) = Inr p
            \<and> fetch_workers (snd (configure_threads typed_fetch typed_process w)) = max 1 (min f 50)
            \<and> process_workers (snd (configure_threads typed_fetch typed_process w)) = max 1 (min p 20))
    \<and> range_start (snd (configure_threads typed_fetch typed_process w)) = range_start w
    \<and> range_end (snd (configure_threads typed_fetch typed_process w)) = range_end w)"
proof -
  note r = set_custom_range_atomic [of typed_start typed_end w]
  note t = configure_threads_atomic [of typed_fetch w typed_process]
  show ?thesis
    by (rule conjI [OF r [THEN conjunct1] conjI [OF r [THEN conjunct2, THEN conjunct1]
          conjI [OF r [THEN conjunct2, THEN conjunct2] t]]])
qed

lemma configuration_atomic_examples:
  "fst (set_custom_range ''abc'' [] init) = Inr False
 \<and> range_start (snd (set_custom_range ''abc'' [] init)) = 1000000000000000
 \<and> range_end (snd (set_custom_range ''abc'' [] init)) = 1000000000009999
 \<and> fetch_workers (snd (set_custom_range ''abc'' [] init)) = 10
 \<and> process_workers (snd (set_custom_range ''abc'' [] init)) = 5
 \<and> fst (configure_threads ''ten'' [] init) = Inr False
 \<and> fetch_workers (snd (configure_threads ''ten'' [] init)) = 10
 \<and> process_workers (snd (configure_threads ''ten'' [] init)) = 5
 \<and> fst (set_custom_range ''1000000000000000'' ''1000000000000004'' init) = Inr True
 \<and> range_start (snd (set_custom_range ''1000000000000000'' ''1000000000000004'' init)) = 1000000000000000
 \<and> range_end (snd (set_custom_range ''1000000000000000'' ''1000000000000004'' init)) = 1000000000000004
 \<and> fst (configure_threads ''0'' ''99'' init) = Inr True
 \<and> fetch_workers (snd (configure_threads ''0'' ''99'' init)) = 1
 \<and> process_workers (snd (configure_threads ''0'' ''99'' init)) = 20"
proof -
  note c = configuration_atomic [of "''abc''" "[]" init "''ten''" "[]"]
  have "py_int (prompt_ask ''abc'' (py_str (range_start init))) = Inl ValueError"
    by code_simp
  then have "(\<exists>e. py_int (prompt_ask ''abc'' (py_str (range_start init))) = Inl e)
    \<or> (\<exists>e. py_int (prompt_ask [] (py_str (range_end init))) = Inl e)
    \<or> (\<exists>lo hi. py_int (prompt_ask ''abc'' (py_str (range_start init))) = Inr lo
              \<and> py_int (prompt_ask [] (py_str (range_end init))) = Inr hi
              \<and> (length (py_str lo) \<noteq> 16 \<or> length (py_str hi) \<noteq> 16 \<or> lo \<ge> hi))"
    by (intro disjI1 exI)
  from c [THEN conjunct2, THEN conjunct1, THEN mp, OF this]
  have a1: "fst (set_custom_range ''abc'' [] init) = Inr False" .
  note kept = c [THEN conjunct1, THEN mp, OF a1]
  have a2: "range_start (snd (set_custom_range ''abc'' [] init)) = 1000000000000000"
    using kept [THEN conjunct1] by (simp add: init_def)
  have a3: "range_end (snd (set_custom_range ''abc'' [] init)) = 1000000000009999"
    using kept [THEN conjunct2, THEN conjunct1] by (simp add: init_def)
  have a4: "fetch_workers (snd (set_custom_range ''abc'' [] init)) = 10"
    using kept [THEN conjunct2, THEN conjunct2, THEN conjunct1] by (simp add: init_def)
  have a5: "process_workers (snd (set_custom_range ''abc'' [] init)) = 5"
    using kept [THEN conjunct2, THEN conjunct2, THEN conjunct2] by (simp add: init_def)
  have "py_int (prompt_ask ''ten'' (py_str (fetch_workers init))) = Inl ValueError"
    by code_simp
  then have "(\<exists>e. py_int (prompt_ask ''ten'' (py_str (fetch_workers init))) = Inl e)
    \<or> (\<exists>e. py_int (prompt_ask [] (py_str (process_workers init))) = Inl e)"
    by (intro disjI1 exI)
  note refused = c [THEN conjunct2, THEN conjunct2, THEN conjunct2, THEN conjunct1, THEN mp, OF this]
  have b1: "fst (configure_threads ''ten'' [] init) = Inr False"
    by (rule refused [THEN conjunct1])
  have b2: "fetch_workers (snd (configure_threads ''ten'' [] init)) = 10"
    using refused [THEN conjunct2, THEN conjunct2, THEN conjunct2, THEN conjunct1]
    by (simp add: init_def)
  have b3: "process_workers (snd (configure_threads ''ten'' [] init)) = 5"
    using refused [THEN conjunct2, THEN conjunct2, THEN conjunct2, THEN conjunct2]
    by (simp add: init_def)
  note d = configuration_atomic [of "''1000000000000000''" "''1000000000000004''" init "''0''" "''99''"]
  have lo: "py_int (prompt_ask ''1000000000000000'' (py_str (range_start init))) = Inr 1000000000000000"
    by code_simp
  have hi: "py_int (prompt_ask ''1000000000000004'' (py_str (range_end init))) = Inr 1000000000000004"
    by code_simp
  have c1: "fst (set_custom_range ''1000000000000000'' ''1000000000000004'' init) = Inr True"
    by code_simp
  note set = d [THEN conjunct2, THEN conjunct2, THEN conjunct1, THEN mp, OF c1, THEN conjunct1]
  have c2: "range_start (snd (set_custom_range ''1000000000000000'' ''1000000000000004'' init)) = 1000000000000000"
    using set by (simp add: lo hi)
  have c3: "range_end (snd (set_custom_range ''1000000000000000'' ''1000000000000004'' init)) = 1000000000000004"
    using set by (simp add: lo hi)
  have f: "py_int (prompt_ask ''0'' (py_str (fetch_workers init))) = Inr 0"
    by code_simp
  have p: "py_int (prompt_ask ''99'' (py_str (process_workers init))) = Inr 99"
    by code_simp
  have d1: "fst (configure_threads ''0'' ''99'' init) = Inr True"
    by code_simp
  note upd = d [THEN conjunct2, THEN conjunct2, THEN conjunct2, THEN conjunct2, THEN mp, OF d1,
      THEN conjunct1]
  have d2: "fetch_workers (snd (configure_threads ''0'' ''99'' init)) = 1"
    using upd by (simp add: f p)
  have d3: "process_workers (snd (configure_threads ''0'' ''99'' init)) = 20"
    using upd by (simp add: f p)
  show ?thesis
    by (rule conjI [OF a1 conjI [OF a2 conjI [OF a3 conjI [OF a4 conjI [OF a5 conjI [OF b1
          conjI [OF b2 conjI [OF b3 conjI [OF c1 conjI [OF c2 conjI [OF c3 conjI [OF d1
          conjI [OF d2 d3]]]]]]]]]]]]])
qed

text \<open>
  C9. The claim has every bound that is not 16 digits rejected, with a return value of
  \<^verbatim>\<open>False\<close> and the range unchanged, and the messages of the method ask for 16
  digits. The test \<^verbatim>\<open>len(str(start)) != 16\<close> counts the minus sign, however: the
  answer \<^verbatim>\<open>-100000000000000\<close> has 15 digits and a text of 16 characters, so the test
  passes, \<^verbatim>\<open>set_custom_range\<close> returns \<^verbatim>\<open>True\<close>, and the start of the range is
  overwritten with a negative number of 15 digits.
\<close>

theorem set_custom_range_accepts_fifteen_digits:
  "py_int ''-100000000000000'' = Inr (- 100000000000000)
 \<and> length (str_digits 100000000000000) = 15
 \<and> length (py_str (- 100000000000000)) = 16
 \<and> fst (set_custom_range ''-100000000000000'' ''1000000000000004'' init) = Inr True
 \<and> range_start (snd (set_custom_range ''-100000000000000'' ''1000000000000004'' init))
      = - 100000000000000
 \<and> range_end (snd (set_custom_range ''-100000000000000'' ''1000000000000004'' init))
      = 1000000000000004
 \<and> range_start init = 1000000000000000
 \<and> range_end init = 1000000000009999"
  by code_simp

subsection \<open>A whole run\<close>

lemma drain_fold: "drain e pending w = fold (handle_future e) (completion_order e pending) w"
proof (induction e pending w rule: drain.induct)
  case (1 e pending w)
  show ?case
  proof (cases "pending = []")
    case True
    then show ?thesis
      by (simp add: drain.simps [of e "[]"] completion_order.simps [of e "[]"])
  next
    case False
    with "1.IH" [OF False refl] show ?thesis
      by (simp add: drain.simps [of e pending] completion_order.simps [of e pending] Let_def)
  qed
qed

lemma mset_completion_order: "mset (completion_order e pending) = mset pending"
proof (induction e pending rule: completion_order.induct)
  case (1 e pending)
  show ?case
  proof (cases "pending = []")
    case True
    then show ?thesis
      by (simp add: completion_order.simps [of e "[]"])
  next
    case False
    define i where "i = pick e pending mod length pending"
    from False have i: "i < length pending"
      by (simp add: i_def)
    have "mset pending = mset (take i pending @ pending ! i # drop (Suc i) pending)"
      using id_take_nth_drop [OF i] by simp
    with "1.IH" [OF False i_def] False show ?thesis
      by (simp add: completion_order.simps [of e pending] Let_def i_def [symmetric])
  qed
qed

lemma handle_future_effect:
  "checked_count (handle_future e a w)
     = checked_count w + (if status_of e a = None then 0 else 1)"
  "error_count (handle_future e a w)
     = error_count w + (if status_of e a = None then 1 else 0)
         + (if status_of e a = Some 200 \<and> \<not> append_ok e a then 1 else 0)"
  "valid_count (handle_future e a w) = valid_count w + (if stored e a then 1 else 0)"
  "rate_limit_count (handle_future e a w)
     = rate_limit_count w + (if status_of e a = Some 429 then 1 else 0)"
  "valid_accounts (handle_future e a w)
     = valid_accounts w @ (if stored e a then a @ [newline] else [])"
  by (auto simp: handle_future_def fetch_response_def process_response_def
      process_response_try_def file_append_def status_of_def stored_def logger_def say_def Let_def
      split: probe.splits)

lemma fold_handle_future:
  "checked_count (fold (handle_future e) xs w)
     = checked_count w + int (length (filter (responded e) xs))"
  "error_count (fold (handle_future e) xs w)
     = error_count w + int (length (filter (\<lambda>a. \<not> responded e a) xs))
         + int (length (filter (refused e) xs))"
  "valid_count (fold (handle_future e) xs w)
     = valid_count w + int (length (filter (stored e) xs))"
  "rate_limit_count (fold (handle_future e) xs w)
     = rate_limit_count w + int (length (filter (rate_limited e) xs))"
  "valid_accounts (fold (handle_future e) xs w)
     = valid_accounts w @ concat (map (\<lambda>a. a @ [newline]) (filter (stored e) xs))"
  by (induction xs arbitrary: w)
    (simp_all add: handle_future_effect responded_def refused_def rate_limited_def)

lemma handle_future_settings:
  "range_start (handle_future e a w) = range_start w"
  "range_end (handle_future e a w) = range_end w"
  by (auto simp: handle_future_def fetch_response_def process_response_def
      process_response_try_def file_append_def logger_def say_def Let_def
      split: probe.splits)

lemma length_filter_completion_order:
  "length (filter P (completion_order e pending)) = length (filter P pending)"
proof -
  have "mset (filter P (completion_order e pending)) = mset (filter P pending)"
    by (simp add: mset_completion_order)
  then show ?thesis
    by (rule mset_eq_length)
qed

lemma drain_counts:
  "checked_count (drain e pending w)
     = checked_count w + int (length (filter (responded e) pending))"
  "error_count (drain e pending w)
     = error_count w + int (length (filter (\<lambda>a. \<not> responded e a) pending))
         + int (length (filter (refused e) pending))"
  "valid_count (drain e pending w)
     = valid_count w + int (length (filter (stored e) pending))"
  "rate_limit_count (drain e pending w)
     = rate_limit_count w + int (length (filter (rate_limited e) pending))"
  "valid_accounts (drain e pending w)
     = valid_accounts w
         @ concat (map (\<lambda>a. a @ [newline]) (filter (stored e) (completion_order e pending)))"
  by (simp_all add: drain_fold fold_handle_future length_filter_completion_order)

lemma report_keeps:
  "\<exists>w'. report total_accounts elapsed w = Inr w'
      \<and> checked_count w' = checked_count w \<and> error_count w' = error_count w
      \<and> valid_count w' = valid_count w \<and> rate_limit_count w' = rate_limit_count w
      \<and> valid_accounts w' = valid_accounts w \<and> is_running w' = False"
  by (auto simp: report_def checked_pct_def valid_pct_def throughput_def true_div_def Let_def
      logger_def say_def)



lemma run_validation_confirmed:
  assumes "truncate_ok e" and "confirm e"
  shows "\<exists>w'. run_validation e w = Inr w'
      \<and> checked_count w' = checked_count w + int (length (filter (responded e) (account_numbers w)))
      \<and> error_count w'
          = error_count w + int (length (filter (\<lambda>a. \<not> responded e a) (account_numbers w)))
              + int (length (filter (refused e) (account_numbers w)))
      \<and> valid_count w' = valid_count w + int (length (filter (stored e) (account_numbers w)))
      \<and> rate_limit_count w'
          = rate_limit_count w + int (length (filter (rate_limited e) (account_numbers w)))
      \<and> valid_accounts w'
          = concat (map (\<lambda>a. a @ [newline])
              (filter (stored e) (completion_order e (account_numbers w))))
      \<and> is_running w' = False"
proof -
  define w3 where "w3 = logger INFO (Starting (range_start w) (range_end w))
     ((say (ConfigPanel (range_start w) (range_end w) (range_end w - range_start w + 1)
              (fetch_workers w) (process_workers w))
         (logger INFO OutputInitialized (w\<lparr>valid_accounts := []\<rparr>)))
       \<lparr>is_running := True, start_time := Some (clock_start e)\<rparr>)"
  have w3: "checked_count w3 = checked_count w"
    "error_count w3 = error_count w" "valid_count w3 = valid_count w"
    "rate_limit_count w3 = rate_limit_count w" "valid_accounts w3 = []"
    by (simp_all add: w3_def account_numbers_def logger_def say_def)
  have run: "run_validation e w
               = report (range_end w - range_start w + 1) (clock_end e - clock_start e)
                   (drain e (account_numbers w) w3)"
    using assms
    by (simp add: run_validation_def setup_files_def w3_def logger_def say_def Let_def
        account_numbers_def)
  from report_keeps [of "range_end w - range_start w + 1" "clock_end e - clock_start e"
      "drain e (account_numbers w) w3"]
  obtain w' where w': "report (range_end w - range_start w + 1) (clock_end e - clock_start e)
                   (drain e (account_numbers w) w3) = Inr w'"
    "checked_count w' = checked_count (drain e (account_numbers w) w3)"
    "error_count w' = error_count (drain e (account_numbers w) w3)"
    "valid_count w' = valid_count (drain e (account_numbers w) w3)"
    "rate_limit_count w' = rate_limit_count (drain e (account_numbers w) w3)"
    "valid_accounts w' = valid_accounts (drain e (account_numbers w) w3)"
    "is_running w' = False"
    by blast
  show ?thesis
    by (rule exI [of _ w']) (simp add: run w' drain_counts w3)
qed

text \<open>
  The second scenario of the specification: one valid account, one rate limit, five
  probes checked, and one line in the file.
\<close>

lemma mixed_answers_run:
  "map_sum id metrics (run_validation mixed_answers five_accounts)
     = Inr (5, 1, 0, 1, ''1000000000000000'' @ [newline])"
  by code_simp

text \<open>
  With an endpoint that times out on all five probes, the run ends with
  \<^verbatim>\<open>checked_count\<close> 0, not 5; \<^verbatim>\<open>error_count\<close> is 5 and the file is empty.
\<close>

theorem all_timeouts_checked_nothing:
  "map_sum id metrics (run_validation all_timeouts five_accounts) = Inr (0, 0, 5, 0, [])"
  by code_simp

text \<open>
  C1, as amended. A probe that returns a response, whatever its status, raises
  \<^verbatim>\<open>checked_count\<close> by one and nothing else; a probe that ends in a transport error
  raises \<^verbatim>\<open>error_count\<close> by one, logs the error and leaves \<^verbatim>\<open>checked_count\<close> as it
  was. So a confirmed run in which every probe ends in a transport error leaves
  \<^verbatim>\<open>checked_count\<close> and \<^verbatim>\<open>valid_count\<close> unchanged, adds the number of candidates to
  \<^verbatim>\<open>error_count\<close>, and ends with an empty file, in whatever order the probes complete.
\<close>

theorem probes_counted:
  "(\<forall>status_code hdrs. get account = Response status_code hdrs \<longrightarrow>
      fetch_response get account w
        = (Inr (account, Some status_code, Some hdrs), w\<lparr>checked_count := checked_count w + 1\<rparr>))
 \<and> (get account = Failure RequestException \<longrightarrow>
      fetch_response get account w
        = (Inr (account, None, None),
           logger ERROR (ErrorFetching account) (w\<lparr>error_count := error_count w + 1\<rparr>)))
 \<and> (truncate_ok e \<and> confirm e \<and> (\<forall>a. requests_get e a = Failure RequestException) \<longrightarrow>
      (\<exists>w'. run_validation e w = Inr w'
          \<and> checked_count w' = checked_count w
          \<and> error_count w' = error_count w + int (length (account_numbers w))
          \<and> valid_count w' = valid_count w
          \<and> valid_accounts w' = []))"
proof (intro conjI impI allI)
  fix status_code hdrs
  assume "get account = Response status_code hdrs"
  then show "fetch_response get account w
        = (Inr (account, Some status_code, Some hdrs), w\<lparr>checked_count := checked_count w + 1\<rparr>)"
    by (simp add: fetch_response_def)
next
  assume "get account = Failure RequestException"
  then show "fetch_response get account w
        = (Inr (account, None, None),
           logger ERROR (ErrorFetching account) (w\<lparr>error_count := error_count w + 1\<rparr>))"
    by (simp add: fetch_response_def)
next
  assume a: "truncate_ok e \<and> confirm e \<and> (\<forall>a. requests_get e a = Failure RequestException)"
  then have none: "responded e = (\<lambda>a. False)" "stored e = (\<lambda>a. False)" "refused e = (\<lambda>a. False)"
    by (simp_all add: fun_eq_iff responded_def stored_def refused_def status_of_def)
  from a run_validation_confirmed [of e w] obtain w' where
    "run_validation e w = Inr w'"
    "checked_count w' = checked_count w + int (length (filter (responded e) (account_numbers w)))"
    "error_count w'
          = error_count w + int (length (filter (\<lambda>a. \<not> responded e a) (account_numbers w)))
              + int (length (filter (refused e) (account_numbers w)))"
    "valid_count w' = valid_count w + int (length (filter (stored e) (account_numbers w)))"
    "valid_accounts w'
          = concat (map (\<lambda>a. a @ [newline])
              (filter (stored e) (completion_order e (account_numbers w))))"
    by blast
  then show "\<exists>w'. run_validation e w = Inr w'
          \<and> checked_count w' = checked_count w
          \<and> error_count w' = error_count w + int (length (account_numbers w))
          \<and> valid_count w' = valid_count w
          \<and> valid_accounts w' = []"
    by (intro exI [of _ w']) (simp add: none)
qed

theorem probes_counted_witness:
  "truncate_ok all_timeouts \<and> confirm all_timeouts
 \<and> (\<forall>a. requests_get all_timeouts a = Failure RequestException)
 \<and> (\<exists>w'. run_validation all_timeouts five_accounts = Inr w'
        \<and> checked_count w' = 0 \<and> error_count w' = 5 \<and> valid_count w' = 0
        \<and> valid_accounts w' = [])"
proof -
  have hyp: "truncate_ok all_timeouts \<and> confirm all_timeouts
      \<and> (\<forall>a. requests_get all_timeouts a = Failure RequestException)"
    by (simp add: all_timeouts_def)
  have start: "checked_count five_accounts = 0" "error_count five_accounts = 0"
    "valid_count five_accounts = 0"
    by (simp_all add: five_accounts_def init_def)
  have five: "length (account_numbers five_accounts) = 5"
    by code_simp
  note run = probes_counted [where e = all_timeouts and w = five_accounts,
      THEN conjunct2, THEN conjunct2, THEN mp, OF hyp]
  have "\<exists>w'. run_validation all_timeouts five_accounts = Inr w'
        \<and> checked_count w' = 0 \<and> error_count w' = 5 \<and> valid_count w' = 0
        \<and> valid_accounts w' = []"
    using run by (simp add: start five)
  with hyp show ?thesis
    by simp
qed



end
